theory Spec2Isabelle
  imports Main "HOL-Library.Word" "HOL-Library.AList" "HOL-Library.Log_Nat"
begin

section \<open>Values of the Python program\<close>

subsection \<open>Python floats\<close>

text \<open>
  A Python \<open>float\<close> is an IEEE 754 binary64 number. The finite ones are kept by their
  rational value (so \<open>-0.0\<close> and \<open>0.0\<close>, which compare equal in Python, are one value);
  the two infinities and NaN are constructors of their own. Every arithmetic result is
  rounded to the nearest binary64 number, ties to the even mantissa: 53 bits of
  mantissa, exponents from \<open>-1022\<close> to \<open>1023\<close>, subnormals below, overflow to infinity.
  The type also holds rationals that are no binary64 number; what is proved below holds
  for them as well.
\<close>

datatype pyfloat = Finite rat | PosInf | NegInf | NaN

definition pow2 :: "int \<Rightarrow> rat" where
  "pow2 k = (if 0 \<le> k then 2 ^ nat k else 1 / 2 ^ nat (- k))"

definition ilog2 :: "rat \<Rightarrow> int" where
  \<comment> \<open>for \<open>a > 0\<close>, the exponent \<open>e\<close> with \<open>2 ^ e \<le> a < 2 ^ (e + 1)\<close>\<close>
  "ilog2 a = (let (n, d) = quotient_of a; k = bitlen n - bitlen d
              in if pow2 k \<le> a then k else k - 1)"

definition round_half_even :: "rat \<Rightarrow> int" where
  "round_half_even r =
     (let f = \<lfloor>r\<rfloor>; d = r - of_int f
      in if d < 1 / 2 then f else if 1 / 2 < d then f + 1
         else if even f then f else f + 1)"

definition round_double :: "rat \<Rightarrow> pyfloat" where
  \<comment> \<open>\<open>q\<close> is the spacing of binary64 numbers around \<open>x\<close>; a rounded magnitude of
      \<open>2 ^ 1024\<close> or more overflows\<close>
  "round_double x =
     (if x = 0 then Finite 0
      else let a = \<bar>x\<bar>;
               e = max (ilog2 a) (- 1022);
               q = pow2 (e - 52);
               r = of_int (round_half_even (a / q)) * q
           in if 1024 \<le> ilog2 r then (if 0 < x then PosInf else NegInf)
              else Finite (if 0 < x then r else - r))"

text \<open>
  What "correctly rounded" means, stated without the functions above: \<open>is_binary64\<close>
  are the rationals a binary64 number can hold, and \<open>correctly_rounded x y\<close> says that
  \<open>y\<close> is the float IEEE 754 assigns to the exact value \<open>x\<close> under round-to-nearest,
  ties-to-even: a nearest binary64 number, the one with the even mantissa when two are
  equally near (it is then an even multiple of their distance), and an infinity from
  \<open>2 ^ 1024 - 2 ^ 970\<close> on, the midpoint between the largest binary64 number and
  \<open>2 ^ 1024\<close>. Below, \<open>round_double\<close> is proved to round correctly in this sense
  (\<open>round_double_correct\<close>), and the correctly rounded value is proved unique
  (\<open>correctly_rounded_unique\<close>).
\<close>

definition is_binary64 :: "rat \<Rightarrow> bool" where
  "is_binary64 r \<longleftrightarrow>
     (\<exists>m e :: int. \<bar>m\<bar> < 2 ^ 53 \<and> - 1074 \<le> e \<and> e \<le> 971 \<and> r = of_int m * 2 powi e)"

definition overflow_threshold :: rat where
  "overflow_threshold = 2 ^ 1024 - 2 ^ 970"

definition correctly_rounded :: "rat \<Rightarrow> pyfloat \<Rightarrow> bool" where
  "correctly_rounded x y =
     (case y of
        Finite r \<Rightarrow>
          \<bar>x\<bar> < overflow_threshold \<and> is_binary64 r \<and>
          (\<forall>s. is_binary64 s \<longrightarrow>
             \<bar>r - x\<bar> \<le> \<bar>s - x\<bar> \<and>
             (s \<noteq> r \<and> \<bar>s - x\<bar> = \<bar>r - x\<bar> \<longrightarrow> (\<exists>k :: int. r = 2 * of_int k * \<bar>r - s\<bar>)))
      | PosInf \<Rightarrow> overflow_threshold \<le> x
      | NegInf \<Rightarrow> x \<le> - overflow_threshold
      | NaN \<Rightarrow> False)"

fun float_neg :: "pyfloat \<Rightarrow> pyfloat" where
  "float_neg (Finite a) = Finite (- a)"
| "float_neg PosInf = NegInf"
| "float_neg NegInf = PosInf"
| "float_neg NaN = NaN"

fun float_mul :: "pyfloat \<Rightarrow> pyfloat \<Rightarrow> pyfloat" where
  "float_mul NaN y = NaN"
| "float_mul x NaN = NaN"
| "float_mul (Finite a) (Finite b) = round_double (a * b)"
| "float_mul (Finite a) y = (if a = 0 then NaN else if 0 < a then y else float_neg y)"
| "float_mul x (Finite b) = (if b = 0 then NaN else if 0 < b then x else float_neg x)"
| "float_mul x y = (if x = y then PosInf else NegInf)"


subsection \<open>Documents\<close>

text \<open>
  A document is a Python \<open>dict\<close> from field names to values, in insertion order.
\<close>

datatype val = VNone | VBool bool | VInt int | VFloat pyfloat | VStr string

type_synonym doc = "(string \<times> val) list"

definition dict_get :: "doc \<Rightarrow> string \<Rightarrow> val \<Rightarrow> val" where
  "dict_get d k dflt = (case map_of d k of None \<Rightarrow> dflt | Some v \<Rightarrow> v)"

definition opt_str :: "string option \<Rightarrow> val" where
  "opt_str s = (case s of None \<Rightarrow> VNone | Some t \<Rightarrow> VStr t)"

definition opt_float :: "pyfloat option \<Rightarrow> val" where
  "opt_float x = (case x of None \<Rightarrow> VNone | Some y \<Rightarrow> VFloat y)"

subsection \<open>Exceptions and HTTP errors\<close>

text \<open>
  \<open>HTTPException\<close> is what the handlers raise themselves, with the status code and the
  detail they give. The remaining constructors but one are Python exceptions no handler
  catches: the server answers them with status 500.

  \<open>RequestValidationError\<close> is what FastAPI raises when a request body does not validate
  against the pydantic model of the handler's parameter; \<open>main.py\<close> installs no
  exception handler of its own, so FastAPI's default one answers. Its response has
  status 422 and a JSON body that lists the errors, each with the input it rejected: the
  offending value, or the whole body when a required key is missing. The body is encoded
  with \<open>allow_nan=False\<close>: when a repeated input holds an infinity or a NaN, encoding
  raises inside the exception handler and the server answers with status 500 instead.
  The error therefore carries the inputs its report repeats.
\<close>

datatype echoed = Input val | InputDict doc

fun json_compliant :: "val \<Rightarrow> bool" where
  "json_compliant (VFloat (Finite a)) = True"
| "json_compliant (VFloat x) = False"
| "json_compliant v = True"

fun encodable :: "echoed \<Rightarrow> bool" where
  "encodable (Input v) = json_compliant v"
| "encodable (InputDict d) = list_all (\<lambda>(k, v). json_compliant v) d"

datatype error =
    HTTPException nat string
  | RequestValidationError "echoed list"
  | TypeError
  | ValueError
  | OverflowError

fun status_code :: "error \<Rightarrow> nat" where
  "status_code (HTTPException code detail) = code"
| "status_code (RequestValidationError inputs) = (if list_all encodable inputs then 422 else 500)"
| "status_code e = 500"

subsection \<open>Conversions to float\<close>

definition int_to_float :: "int \<Rightarrow> error + pyfloat" where
  \<comment> \<open>\<open>int\<close> to \<open>float\<close>: correctly rounded, OverflowError when out of range\<close>
  "int_to_float i =
     (case round_double (of_int i) of
        Finite a \<Rightarrow> Inr (Finite a)
      | _ \<Rightarrow> Inl OverflowError)"

definition float_mul_int :: "pyfloat \<Rightarrow> int \<Rightarrow> error + pyfloat" where
  \<comment> \<open>\<open>x * n\<close> for a float \<open>x\<close> and an int \<open>n\<close>: \<open>n\<close> is converted first\<close>
  "float_mul_int x n =
     (case int_to_float n of Inl e \<Rightarrow> Inl e | Inr y \<Rightarrow> Inr (float_mul x y))"

definition py_float :: "(string \<Rightarrow> pyfloat option) \<Rightarrow> val \<Rightarrow> error + pyfloat" where
  \<comment> \<open>\<open>float(v)\<close>; the parser of numeric strings is the parameter \<open>float_of_str\<close>\<close>
  "py_float float_of_str v =
     (case v of
        VNone \<Rightarrow> Inl TypeError
      | VBool b \<Rightarrow> Inr (Finite (if b then 1 else 0))
      | VInt i \<Rightarrow> int_to_float i
      | VFloat x \<Rightarrow> Inr x
      | VStr s \<Rightarrow> (case float_of_str s of None \<Rightarrow> Inl ValueError | Some x \<Rightarrow> Inr x))"

subsection \<open>Object identifiers\<close>

text \<open>
  A \<open>bson.ObjectId\<close> holds the bytes of its identifier, twelve for the identifiers the
  store assigns. \<open>ObjectId(s)\<close> for a string \<open>s\<close> checks \<open>len(s) == 24\<close> and takes
  \<open>bytes.fromhex(s)\<close>, raising when either fails. \<open>bytes.fromhex\<close> reads pairs of
  hexadecimal digits and skips ASCII whitespace before a pair and at the end of the
  string, so a string of length 24 that has whitespace is accepted when what remains is
  pairs of digits, and gives fewer than twelve bytes. \<open>str\<close> of an ObjectId is its bytes
  in lower-case hexadecimal digits.
\<close>

type_synonym oid = "8 word list"

definition hexdigits :: "(char \<times> nat) list" where
  "hexdigits = zip ''0123456789abcdef'' [0..<16] @ zip ''ABCDEF'' [10..<16]"

definition hex_value :: "char \<Rightarrow> nat option" where
  "hex_value c = map_of hexdigits c"

definition isspace :: "char \<Rightarrow> bool" where
  \<comment> \<open>space, \<open>\t\<close>, \<open>\n\<close>, \<open>\v\<close>, \<open>\f\<close>, \<open>\r\<close>\<close>
  "isspace c = (of_char c \<in> set [32, 9, 10, 11, 12, 13 :: nat])"

fun fromhex :: "string \<Rightarrow> 8 word list option" where
  "fromhex [] = Some []"
| "fromhex [a] = (if isspace a then Some [] else None)"
| "fromhex (a # b # cs) =
     (if isspace a then fromhex (b # cs)
      else case (hex_value a, hex_value b, fromhex cs) of
             (Some h, Some l, Some bs) \<Rightarrow> Some (of_nat (16 * h + l) # bs)
           | _ \<Rightarrow> None)"

definition ObjectId :: "string \<Rightarrow> oid option" where
  "ObjectId s = (if length s = 24 then fromhex s else None)"

definition hex_of_byte :: "8 word \<Rightarrow> string" where
  "hex_of_byte b =
     [''0123456789abcdef'' ! (unat b div 16), ''0123456789abcdef'' ! (unat b mod 16)]"

definition str_oid :: "oid \<Rightarrow> string" where
  "str_oid i = concat (map hex_of_byte i)"

section \<open>The document store\<close>

text \<open>
  A stored document is its \<open>_id\<close> together with its other fields; a collection is the
  list of its documents in insertion order, and the database maps a collection name to
  its collection (a collection never written is empty). Beside the collections the state
  keeps the sequence of driver calls issued so far, so that "no storage operation was
  performed" is a statement about the state.

  The handle \<open>db\<close> of the module \<open>database\<close> is taken to be a connected database that
  answers every call. \<open>find_one\<close>, \<open>update_one\<close> and \<open>delete_one\<close> are the driver's
  operations on one collection, each with the filter \<open>{"_id": i}\<close>: they act on the first
  document with that identifier.
\<close>

type_synonym stored = "oid \<times> doc"

datatype db_call = FindOne string | UpdateOne string | DeleteOne string | InsertOne string

record database =
  collections :: "string \<Rightarrow> stored list"
  calls :: "db_call list"

definition has_id :: "oid \<Rightarrow> stored \<Rightarrow> bool" where
  "has_id i d = (fst d = i)"

definition find_one :: "string \<Rightarrow> oid \<Rightarrow> database \<Rightarrow> stored option \<times> database" where
  "find_one c i db =
     (find (has_id i) (collections db c), db\<lparr>calls := calls db @ [FindOne c]\<rparr>)"

definition set_fields :: "doc \<Rightarrow> stored \<Rightarrow> stored" where
  \<comment> \<open>the update operator \<open>$set\<close>: every listed field is assigned\<close>
  "set_fields updates d = (fst d, foldl (\<lambda>f (k, v). AList.update k v f) (snd d) updates)"

fun update_first :: "('a \<Rightarrow> bool) \<Rightarrow> ('a \<Rightarrow> 'a) \<Rightarrow> 'a list \<Rightarrow> 'a list" where
  "update_first P f [] = []"
| "update_first P f (x # xs) = (if P x then f x # xs else x # update_first P f xs)"

fun remove_first :: "('a \<Rightarrow> bool) \<Rightarrow> 'a list \<Rightarrow> 'a list" where
  "remove_first P [] = []"
| "remove_first P (x # xs) = (if P x then xs else x # remove_first P xs)"

record UpdateResult =
  matched_count :: nat
  modified_count :: nat

definition update_one ::
  "string \<Rightarrow> oid \<Rightarrow> doc \<Rightarrow> database \<Rightarrow> UpdateResult \<times> database" where
  "update_one c i updates db =
     (case find (has_id i) (collections db c) of
        None \<Rightarrow>
          (\<lparr>matched_count = 0, modified_count = 0\<rparr>,
           db\<lparr>calls := calls db @ [UpdateOne c]\<rparr>)
      | Some d \<Rightarrow>
          (\<lparr>matched_count = 1,
            modified_count = (if set_fields updates d = d then 0 else 1)\<rparr>,
           db\<lparr>collections := (collections db)
                  (c := update_first (has_id i) (set_fields updates) (collections db c)),
              calls := calls db @ [UpdateOne c]\<rparr>))"

definition delete_one :: "string \<Rightarrow> oid \<Rightarrow> database \<Rightarrow> nat \<times> database" where
  \<comment> \<open>returns \<open>deleted_count\<close>\<close>
  "delete_one c i db =
     ((if find (has_id i) (collections db c) = None then 0 else 1),
      db\<lparr>collections := (collections db)(c := remove_first (has_id i) (collections db c)),
         calls := calls db @ [DeleteOne c]\<rparr>)"

text \<open>
  Modelled from the spec: \<open>create_document\<close> of the module \<open>database\<close>, which is not
  among the source files. Section 4.1: it "serializes record fields to a storage
  document, inserts into the named collection, returns the newly assigned unique
  identifier as a string", with one durable write as its side effect. The identifier the
  store assigns is the parameter \<open>new_id\<close>; the record arrives as the dict of its fields.
\<close>

definition create_document ::
  "string \<Rightarrow> doc \<Rightarrow> oid \<Rightarrow> database \<Rightarrow> string \<times> database" where
  "create_document c data new_id db =
     (str_oid new_id,
      db\<lparr>collections := (collections db)(c := collections db c @ [(new_id, data)]),
         calls := calls db @ [InsertOne c]\<rparr>)"

section \<open>Schemas\<close>

text \<open>
  \<open>Event\<close> of \<open>schemas.py\<close>, which \<open>EventCreate\<close> inherits unchanged; \<open>AdminEvent\<close> of
  \<open>main.py\<close> has the same fields. The field \<open>image\<close> is named \<open>image_url\<close> here.
\<close>

record Event =
  title :: string
  date :: string
  dj :: string
  price :: pyfloat
  description :: "string option"
  image_url :: "string option"

type_synonym AdminEvent = Event

text \<open>
  \<open>EventUpdate\<close> of \<open>main.py\<close>: every field is optional and \<open>None\<close> when its key is absent
  or \<open>null\<close>. The fields carry the suffix \<open>_opt\<close> here.
\<close>

record EventUpdate =
  title_opt :: "string option"
  date_opt :: "string option"
  dj_opt :: "string option"
  price_opt :: "pyfloat option"
  description_opt :: "string option"
  image_opt :: "string option"

record PurchaseRequest =
  buyer_name :: string
  email :: string
  phone :: "string option"
  event_id :: string
  quantity :: int









definition model_dump_Event :: "Event \<Rightarrow> doc" where
  "model_dump_Event e =
     [(''title'', VStr (title e)), (''date'', VStr (date e)), (''dj'', VStr (dj e)),
      (''price'', VFloat (price e)), (''description'', opt_str (description e)),
      (''image'', opt_str (image_url e))]"

definition model_dump_EventUpdate :: "EventUpdate \<Rightarrow> doc" where
  "model_dump_EventUpdate p =
     [(''title'', opt_str (title_opt p)), (''date'', opt_str (date_opt p)),
      (''dj'', opt_str (dj_opt p)), (''price'', opt_float (price_opt p)),
      (''description'', opt_str (description_opt p)), (''image'', opt_str (image_opt p))]"

section \<open>Routes\<close>

text \<open>
  A handler takes the database and returns its response, or the exception it raises,
  together with the database it leaves. Responses are the dicts the handlers return.
  The handlers that insert take the identifier the store will assign. The path parameter
  \<open>event_id\<close> is written \<open>eid\<close>, the name \<open>event_id\<close> being the field of
  \<open>PurchaseRequest\<close>.
\<close>

definition to_object_id :: "string \<Rightarrow> error + oid" where
  "to_object_id id_str =
     (case ObjectId id_str of
        Some i \<Rightarrow> Inr i
      | None \<Rightarrow> Inl (HTTPException 400 ''Invalid ID format''))"

definition serialize :: "stored \<Rightarrow> doc" where
  \<comment> \<open>\<open>doc["id"] = str(doc.pop("_id"))\<close>; a stored document is never empty\<close>
  "serialize d = AList.update ''id'' (VStr (str_oid (fst d))) (snd d)"



definition get_event :: "database \<Rightarrow> string \<Rightarrow> (error + doc) \<times> database" where
  "get_event db eid =
     (case to_object_id eid of
        Inl e \<Rightarrow> (Inl e, db)
      | Inr i \<Rightarrow>
          (let (doc, db') = find_one ''event'' i db
           in case doc of
                None \<Rightarrow> (Inl (HTTPException 404 ''Event not found''), db')
              | Some d \<Rightarrow> (Inr (serialize d), db')))"

definition updates_of :: "EventUpdate \<Rightarrow> doc" where
  \<comment> \<open>\<open>{k: v for k, v in payload.model_dump().items() if v is not None}\<close>\<close>
  "updates_of payload = filter (\<lambda>(k, v). v \<noteq> VNone) (model_dump_EventUpdate payload)"

definition update_event ::
  "database \<Rightarrow> string \<Rightarrow> EventUpdate \<Rightarrow> (error + doc) \<times> database" where
  "update_event db eid payload =
     (let updates = updates_of payload
      in if updates = [] then (Inr [(''updated'', VBool False)], db)
         else case to_object_id eid of
                Inl e \<Rightarrow> (Inl e, db)
              | Inr i \<Rightarrow>
                  (let (res, db') = update_one ''event'' i updates db
                   in if matched_count res = 0
                      then (Inl (HTTPException 404 ''Event not found''), db')
                      else (Inr [(''updated'', VBool (0 < modified_count res))], db')))"

definition delete_event :: "database \<Rightarrow> string \<Rightarrow> (error + doc) \<times> database" where
  "delete_event db eid =
     (case to_object_id eid of
        Inl e \<Rightarrow> (Inl e, db)
      | Inr i \<Rightarrow>
          (let (deleted_count, db') = delete_one ''event'' i db
           in if deleted_count = 0
              then (Inl (HTTPException 404 ''Event not found''), db')
              else (Inr [(''deleted'', VBool True)], db')))"

definition purchase_doc :: "PurchaseRequest \<Rightarrow> pyfloat \<Rightarrow> doc" where
  \<comment> \<open>the dict \<open>purchase_doc\<close> that \<open>purchase_ticket\<close> builds\<close>
  "purchase_doc req total_price =
     [(''buyer_name'', VStr (buyer_name req)), (''email'', VStr (email req)),
      (''phone'', opt_str (phone req)), (''event_id'', VStr (event_id req)),
      (''quantity'', VInt (quantity req)), (''total_price'', VFloat total_price)]"

definition purchase_ticket ::
  "(string \<Rightarrow> pyfloat option) \<Rightarrow> database \<Rightarrow> oid \<Rightarrow> PurchaseRequest
     \<Rightarrow> (error + doc) \<times> database" where
  "purchase_ticket float_of_str db new_id req =
     (case to_object_id (event_id req) of
        Inl e \<Rightarrow> (Inl e, db)
      | Inr i \<Rightarrow>
          (let (event, db1) = find_one ''event'' i db
           in case event of
                None \<Rightarrow> (Inl (HTTPException 404 ''Event not found''), db1)
              | Some ev \<Rightarrow>
                  (case py_float float_of_str (dict_get (snd ev) ''price'' (VInt 0)) of
                     Inl e \<Rightarrow> (Inl e, db1)
                   | Inr p \<Rightarrow>
                       (case float_mul_int p (quantity req) of
                          Inl e \<Rightarrow> (Inl e, db1)
                        | Inr total_price \<Rightarrow>
                            (let (purchase_id, db2) =
                                   create_document ''ticketpurchase''
                                     (purchase_doc req total_price) new_id db1
                             in (Inr [(''id'', VStr purchase_id),
                                      (''total_price'', VFloat total_price),
                                      (''event_title'', dict_get (snd ev) ''title'' VNone)],
                                 db2))))))"

subsection \<open>Admin routes\<close>

definition ADMIN_TOKEN :: "(string \<rightharpoonup> string) \<Rightarrow> string" where
  \<comment> \<open>\<open>os.getenv("ADMIN_TOKEN", "")\<close>, read from the process environment\<close>
  "ADMIN_TOKEN environ = (case environ ''ADMIN_TOKEN'' of None \<Rightarrow> [] | Some v \<Rightarrow> v)"

definition admin_add_event ::
  "(string \<rightharpoonup> string) \<Rightarrow> database \<Rightarrow> oid \<Rightarrow> AdminEvent \<Rightarrow> string
     \<Rightarrow> (error + doc) \<times> database" where
  "admin_add_event environ db new_id event token =
     (if token \<noteq> ADMIN_TOKEN environ then (Inl (HTTPException 401 ''Unauthorized''), db)
      else let (event_id, db') = create_document ''event'' (model_dump_Event event) new_id db
           in (Inr [(''id'', VStr event_id)], db'))"

definition admin_edit_event ::
  "(string \<rightharpoonup> string) \<Rightarrow> database \<Rightarrow> string \<Rightarrow> EventUpdate \<Rightarrow> string
     \<Rightarrow> (error + doc) \<times> database" where
  "admin_edit_event environ db eid payload token =
     (if token \<noteq> ADMIN_TOKEN environ then (Inl (HTTPException 401 ''Unauthorized''), db)
      else update_event db eid payload)"

definition admin_delete_event ::
  "(string \<rightharpoonup> string) \<Rightarrow> database \<Rightarrow> string \<Rightarrow> string \<Rightarrow> (error + doc) \<times> database" where
  "admin_delete_event environ db eid token =
     (if token \<noteq> ADMIN_TOKEN environ then (Inl (HTTPException 401 ''Unauthorized''), db)
      else delete_event db eid)"

section \<open>Example data\<close>

definition example_id :: oid where
  "example_id = [0x65, 0x4a, 0x1b, 0x2c, 0x3d, 0x4e, 0x5f, 0x60, 0x71, 0x82, 0x93, 0xa4]"

definition fresh_id :: oid where
  "fresh_id = [0x65, 0x4a, 0x1b, 0x2c, 0x3d, 0x4e, 0x5f, 0x60, 0x71, 0x82, 0x93, 0xa5]"

definition blank_id :: string where
  \<comment> \<open>24 spaces: of length 24, and \<open>bytes.fromhex\<close> reads it as no bytes\<close>
  "blank_id = replicate 24 (CHR '' '')"

definition padded_id :: string where
  \<comment> \<open>22 digits, a tab and a newline: eleven bytes\<close>
  "padded_id = ''654a1b2c3d4e5f60718293'' @ [CHR 0x09, CHR 0x0A]"

definition example_event :: doc where
  "example_event =
     [(''title'', VStr ''Opening Night''), (''date'', VStr ''2025-01-31''),
      (''dj'', VStr ''Mila''), (''price'', VFloat (Finite 10)),
      (''description'', VNone), (''image'', VNone)]"

definition example_db :: database where
  "example_db =
     \<lparr>collections = (\<lambda>c. [])(''event'' := [(example_id, example_event)]), calls = []\<rparr>"

definition empty_payload :: EventUpdate where
  "empty_payload =
     \<lparr>title_opt = None, date_opt = None, dj_opt = None, price_opt = None,
      description_opt = None, image_opt = None\<rparr>"

definition title_payload :: EventUpdate where
  "title_payload = empty_payload\<lparr>title_opt := Some ''Closing Night''\<rparr>"




definition example_admin_event :: AdminEvent where
  "example_admin_event =
     \<lparr>title = ''Opening Night'', date = ''2025-01-31'', dj = ''Mila'', price = Finite 10,
      description = None, image_url = None\<rparr>"

definition example_request :: PurchaseRequest where
  "example_request =
     \<lparr>buyer_name = ''Ada'', email = ''ada@example.org'', phone = None,
      event_id = ''654a1b2c3d4e5f60718293a4'', quantity = 3\<rparr>"

definition secret_environ :: "string \<rightharpoonup> string" where
  "secret_environ = [''ADMIN_TOKEN'' \<mapsto> ''s3cret'']"

section \<open>Basic facts\<close>

subsection \<open>Rounding to binary64 is correct\<close>

lemma pow2_powi: "pow2 k = 2 powi k"
proof (cases "0 \<le> k")
  case True
  then show ?thesis
    by (simp add: pow2_def power_int_def)
next
  case False
  then have "pow2 k = inverse (2 ^ nat (- k))"
    by (simp only: pow2_def if_False inverse_eq_divide)
  also have "\<dots> = 2 powi k"
    using False by (simp only: power_int_def if_False power_inverse)
  finally show ?thesis .
qed

lemma powi_pos: "0 < (2 :: rat) powi k"
  by simp

lemma bitlen_powi_bounds:
  assumes "0 < (n :: int)"
  shows "2 powi (bitlen n - 1) \<le> (of_int n :: rat)" and "(of_int n :: rat) < 2 powi (bitlen n)"
proof -
  from assms have b: "2 ^ nat (bitlen n - 1) \<le> n" "n < 2 ^ nat (bitlen n)"
    using bitlen_bounds [of n] by simp_all
  from assms have pos: "0 < bitlen n"
    using bitlen_eq_zero_iff [of n] bitlen_nonneg [of n] by (cases "bitlen n = 0") auto
  have "(2 :: rat) powi (bitlen n - 1) = of_int (2 ^ nat (bitlen n - 1))"
    using pos by (simp add: power_int_def)
  also have "\<dots> \<le> of_int n"
    using b(1) by (simp only: of_int_le_iff)
  finally show "2 powi (bitlen n - 1) \<le> (of_int n :: rat)" .
  have "(of_int n :: rat) < of_int (2 ^ nat (bitlen n))"
    using b(2) by (simp only: of_int_less_iff)
  also have "\<dots> = 2 powi (bitlen n)"
    using pos by (simp add: power_int_def)
  finally show "(of_int n :: rat) < 2 powi (bitlen n)" .
qed

lemma ilog2_bounds:
  assumes "0 < a"
  shows "2 powi (ilog2 a) \<le> a \<and> a < 2 powi (ilog2 a + 1)"
proof -
  obtain n d where q: "quotient_of a = (n, d)"
    by (cases "quotient_of a")
  then have d: "0 < d" and a: "a = of_int n / of_int d"
    using quotient_of_denom_pos [OF q] quotient_of_div [OF q] by simp_all
  from assms a d have n: "0 < n"
    by (simp add: zero_less_divide_iff)
  let ?k = "bitlen n - bitlen d"
  note bn = bitlen_powi_bounds [OF n] and bd = bitlen_powi_bounds [OF d]
  have dpos: "0 < (of_int d :: rat)" using d by simp
  have upper: "a < 2 powi (?k + 1)"
  proof -
    have "a * of_int d < (2 :: rat) powi (bitlen n)"
      using bn(2) dpos by (simp add: a)
    also have "\<dots> = 2 powi (?k + 1) * 2 powi (bitlen d - 1)"
      by (simp add: power_int_add [symmetric])
    also have "\<dots> \<le> 2 powi (?k + 1) * of_int d"
      using bd(1) by (intro mult_left_mono) simp_all
    finally show ?thesis
      using dpos by simp
  qed
  have lower: "2 powi (?k - 1) < a"
  proof -
    have "(2 :: rat) powi (?k - 1) * of_int d < 2 powi (?k - 1) * 2 powi (bitlen d)"
      using bd(2) by (intro mult_strict_left_mono) simp_all
    also have "\<dots> = 2 powi (bitlen n - 1)"
      by (simp add: power_int_add [symmetric])
    also have "\<dots> \<le> of_int n"
      by (rule bn(1))
    also have "\<dots> = a * of_int d"
      using dpos by (simp add: a)
    finally show ?thesis
      using dpos by simp
  qed
  show ?thesis
  proof (cases "2 powi ?k \<le> a")
    case True
    then have "ilog2 a = ?k"
      by (simp add: ilog2_def q pow2_powi)
    with True upper show ?thesis by simp
  next
    case False
    then have "ilog2 a = ?k - 1"
      by (simp add: ilog2_def q pow2_powi)
    with False lower show ?thesis by simp
  qed
qed

lemma round_half_even_near: "\<bar>of_int (round_half_even m) - m\<bar> \<le> 1 / 2"
proof -
  have "of_int \<lfloor>m\<rfloor> \<le> m" "m < of_int \<lfloor>m\<rfloor> + 1"
    by linarith+
  then show ?thesis
    by (auto simp: round_half_even_def Let_def)
qed

lemma round_half_even_nearest:
  "\<bar>of_int (round_half_even m) - m\<bar> \<le> \<bar>of_int j - m\<bar>"
proof (cases "j = round_half_even m")
  case True
  then show ?thesis by simp
next
  case False
  then have "1 \<le> \<bar>j - round_half_even m\<bar>"
    by linarith
  then have "(1 :: rat) \<le> \<bar>of_int j - of_int (round_half_even m)\<bar>"
    by (metis of_int_1_le_iff of_int_abs of_int_diff)
  with round_half_even_near [of m] show ?thesis
    by linarith
qed

lemma round_half_even_tie:
  assumes "j \<noteq> round_half_even m"
    and "\<bar>of_int j - m\<bar> = \<bar>of_int (round_half_even m) - m\<bar>"
  shows "even (round_half_even m)" and "\<bar>j - round_half_even m\<bar> = 1"
proof -
  let ?N = "round_half_even m"
  from assms(1) have "1 \<le> \<bar>j - ?N\<bar>"
    by linarith
  then have apart: "(1 :: rat) \<le> \<bar>of_int j - of_int ?N\<bar>"
    by (metis of_int_1_le_iff of_int_abs of_int_diff)
  with assms(2) round_half_even_near [of m]
  have half: "\<bar>of_int ?N - m\<bar> = 1 / 2" and one: "\<bar>(of_int j :: rat) - of_int ?N\<bar> = 1"
    by linarith+
  from one have "(of_int \<bar>j - ?N\<bar> :: rat) = of_int 1"
    by simp
  then show "\<bar>j - ?N\<bar> = 1"
    by (simp only: of_int_eq_iff)
  have fl: "of_int \<lfloor>m\<rfloor> \<le> m" "m < of_int \<lfloor>m\<rfloor> + 1"
    by linarith+
  show "even ?N"
  proof (rule ccontr)
    assume odd: "odd ?N"
    from half fl odd show False
      by (auto simp: round_half_even_def Let_def split: if_splits)
  qed
qed


lemma powi_mono: "m \<le> n \<Longrightarrow> (2 :: rat) powi m \<le> 2 powi n"
  by (rule power_int_increasing) simp_all

lemma powi_strict_mono: "m < n \<Longrightarrow> (2 :: rat) powi m < 2 powi n"
  by (rule power_int_strict_increasing) simp_all

lemma powi_less_cancel: "(2 :: rat) powi m < 2 powi n \<Longrightarrow> m < n"
  using powi_mono [of n m] by (cases "m < n") auto

lemma powi_add: "(2 :: rat) powi (m + n) = 2 powi m * 2 powi n"
  by (rule power_int_add) simp

lemma powi_nat: "0 \<le> k \<Longrightarrow> (2 :: rat) powi k = of_int (2 ^ nat k)"
  by (simp add: power_int_def)

lemma round_half_even_ge:
  assumes "even K" and "of_int K - 1 / 2 \<le> m"
  shows "K \<le> round_half_even m"
proof (cases "m = of_int K - 1 / 2")
  case True
  then have fl: "\<lfloor>m\<rfloor> = K - 1"
    by (simp add: floor_unique)
  then have "m - of_int \<lfloor>m\<rfloor> = 1 / 2"
    by (simp add: True)
  with fl assms(1) show ?thesis
    by (simp add: round_half_even_def Let_def)
next
  case False
  with assms(2) have "of_int K - 1 / 2 < m"
    by simp
  with round_half_even_near [of m] have "(of_int K :: rat) - 1 < of_int (round_half_even m)"
    by linarith
  then have "(of_int (K - 1) :: rat) < of_int (round_half_even m)"
    by simp
  then have "K - 1 < round_half_even m"
    by (simp only: of_int_less_iff)
  then show ?thesis
    by simp
qed

lemma round_half_even_less:
  assumes "m < of_int K - 1 / 2"
  shows "round_half_even m < K"
proof -
  from assms round_half_even_near [of m] have "(of_int (round_half_even m) :: rat) < of_int K"
    by linarith
  then show ?thesis
    by (simp only: of_int_less_iff)
qed

lemma is_binary64_neg: "is_binary64 (- s) \<longleftrightarrow> is_binary64 s"
proof -
  have "is_binary64 (- s)" if "is_binary64 s" for s
  proof -
    from that obtain m e :: int where "\<bar>m\<bar> < 2 ^ 53" "- 1074 \<le> e" "e \<le> 971"
      "s = of_int m * 2 powi e"
      unfolding is_binary64_def by blast
    then have "\<bar>- m\<bar> < 2 ^ 53 \<and> - 1074 \<le> e \<and> e \<le> 971 \<and> - s = of_int (- m) * 2 powi e"
      by simp
    then show ?thesis
      unfolding is_binary64_def by blast
  qed
  from this [of s] this [of "- s"] show ?thesis
    by auto
qed

lemma binary64_grid:
  assumes "is_binary64 s" and "- 1022 \<le> e" and "e = - 1022 \<or> 2 powi e \<le> \<bar>s\<bar>"
  shows "\<exists>j :: int. s = of_int j * 2 powi (e - 52)"
proof -
  from assms(1) obtain M E :: int where M: "\<bar>M\<bar> < 2 ^ 53" and E: "- 1074 \<le> E" "E \<le> 971"
    and s: "s = of_int M * 2 powi E"
    unfolding is_binary64_def by blast
  have le: "e - 52 \<le> E"
  proof (cases "e = - 1022")
    case True
    with E show ?thesis by simp
  next
    case False
    with assms(3) have "2 powi e \<le> \<bar>s\<bar>"
      by simp
    also have "\<bar>s\<bar> = of_int \<bar>M\<bar> * 2 powi E"
      by (simp add: s abs_mult)
    also have "\<dots> < of_int (2 ^ 53) * 2 powi E"
      using M by (intro mult_strict_right_mono) (simp_all only: of_int_less_iff powi_pos)
    also have "\<dots> = 2 powi (53 + E)"
      by (simp add: powi_add)
    finally have "e < 53 + E"
      by (rule powi_less_cancel)
    then show ?thesis by simp
  qed
  then have "(2 :: rat) powi E = of_int (2 ^ nat (E - (e - 52))) * 2 powi (e - 52)"
    using powi_add [of "E - (e - 52)" "e - 52"] powi_nat [of "E - (e - 52)"] by simp
  then have "s = of_int (M * 2 ^ nat (E - (e - 52))) * 2 powi (e - 52)"
    by (simp add: s)
  then show ?thesis
    by blast
qed


lemma ilog2_zero: "ilog2 0 = - 2"
  by code_simp

lemma ilog2_ge_iff:
  assumes "0 < r"
  shows "k \<le> ilog2 r \<longleftrightarrow> 2 powi k \<le> r"
proof
  assume "k \<le> ilog2 r"
  then have "(2 :: rat) powi k \<le> 2 powi (ilog2 r)"
    by (rule powi_mono)
  with ilog2_bounds [OF assms] show "2 powi k \<le> r"
    by linarith
next
  assume "2 powi k \<le> r"
  with ilog2_bounds [OF assms] have "(2 :: rat) powi k < 2 powi (ilog2 r + 1)"
    by linarith
  then have "k < ilog2 r + 1"
    by (rule powi_less_cancel)
  then show "k \<le> ilog2 r"
    by simp
qed

lemma threshold_eq: "overflow_threshold = (2 ^ 53 - 1 / 2) * 2 powi 971"
  by (simp add: overflow_threshold_def)


lemma grid_distance:
  fixes x q :: rat
  assumes "0 < q"
  shows "\<bar>of_int j * q - x\<bar> = q * \<bar>of_int j - x / q\<bar>"
proof -
  have "of_int j * q - x = q * (of_int j - x / q)"
    using assms by (simp add: field_simps)
  then show ?thesis
    using assms by (simp add: abs_mult)
qed

lemma grid_nearest:
  fixes x q :: rat
  assumes "0 < q"
  shows "\<bar>of_int (round_half_even (x / q)) * q - x\<bar> \<le> \<bar>of_int j * q - x\<bar>"
  unfolding grid_distance [OF assms]
  using assms round_half_even_nearest [of "x / q" j] by simp

lemma grid_tie:
  fixes x q :: rat
  assumes "0 < q" and "j \<noteq> round_half_even (x / q)"
    and "\<bar>of_int j * q - x\<bar> = \<bar>of_int (round_half_even (x / q)) * q - x\<bar>"
  shows "even (round_half_even (x / q))"
    and "\<bar>of_int (round_half_even (x / q)) * q - of_int j * q\<bar> = q"
proof -
  let ?N = "round_half_even (x / q)"
  from assms(3) have eq: "\<bar>of_int j - x / q\<bar> = \<bar>of_int ?N - x / q\<bar>"
    unfolding grid_distance [OF assms(1)] using assms(1) by simp
  from round_half_even_tie [OF assms(2) eq] show "even ?N"
    by simp
  from round_half_even_tie [OF assms(2) eq] have "\<bar>?N - j\<bar> = 1"
    by linarith
  then have "\<bar>(of_int ?N :: rat) - of_int j\<bar> = 1"
    by (metis of_int_1 of_int_abs of_int_diff)
  moreover have "of_int ?N * q - of_int j * q = (of_int ?N - of_int j) * q"
    by (simp add: algebra_simps)
  ultimately show "\<bar>of_int ?N * q - of_int j * q\<bar> = q"
    using assms(1) by (simp add: abs_mult)
qed


lemma round_double_pos:
  assumes pos: "0 < x"
  shows "correctly_rounded x (round_double x)"
proof -
  define e where "e = max (ilog2 x) (- 1022)"
  define q :: rat where "q = 2 powi (e - 52)"
  define N where "N = round_half_even (x / q)"
  define r where "r = of_int N * q"
  have qpos: "0 < q"
    by (simp add: q_def)
  have e_ge: "- 1022 \<le> e"
    by (simp add: e_def)
  have rd: "round_double x = (if 1024 \<le> ilog2 r then PosInf else Finite r)"
    using pos by (simp add: round_double_def Let_def pow2_powi e_def q_def N_def r_def)
  note lg = ilog2_bounds [OF pos]
  have grid_e: "2 powi e = of_int (2 ^ 52) * q"
    using powi_add [of 52 "e - 52"] by (simp add: q_def)
  define e1 where "e1 = e + 1"
  have grid_e1: "2 powi e1 = of_int (2 ^ 53) * q"
  proof -
    have "(2 :: rat) powi e1 = 2 powi (53 + (e - 52))"
      by (rule arg_cong [where f = "power_int 2"]) (simp add: e1_def)
    also have "\<dots> = 2 powi 53 * 2 powi (e - 52)"
      by (rule powi_add)
    finally show ?thesis
      by (simp add: q_def)
  qed

  have m_less: "x / q < 2 ^ 53"
  proof -
    have "ilog2 x + 1 \<le> e1"
      by (simp add: e1_def e_def)
    then have "(2 :: rat) powi (ilog2 x + 1) \<le> 2 powi e1"
      by (rule powi_mono)
    with lg have "x < 2 powi e1"
      by linarith
    then show ?thesis
      using qpos by (simp add: grid_e1 field_simps)
  qed
  have N_le: "N \<le> 2 ^ 53"
  proof -
    have "(of_int (2 ^ 53 + 1) :: rat) - 1 / 2 = 2 ^ 53 + 1 / 2"
      by simp
    with m_less have "x / q < of_int (2 ^ 53 + 1) - 1 / 2"
      by linarith
    then have "N < 2 ^ 53 + 1"
      unfolding N_def by (rule round_half_even_less)
    then show ?thesis by simp
  qed
  have N_ge: "0 \<le> N"
  proof -
    have "0 < x / q"
      using pos qpos by simp
    then have "of_int 0 - 1 / 2 \<le> x / q"
      by simp
    then show ?thesis
      unfolding N_def by (intro round_half_even_ge) simp_all
  qed
  have r_ge: "0 \<le> r"
    using N_ge qpos by (simp add: r_def)
  have near_grid: "\<bar>r - x\<bar> \<le> \<bar>of_int j * q - x\<bar>" for j
    unfolding r_def N_def by (rule grid_nearest [OF qpos])

  have off_grid: "\<bar>r - x\<bar> < \<bar>s - x\<bar>"
    if s: "is_binary64 s" and off: "\<not> (\<exists>j :: int. s = of_int j * q)" for s
  proof -
    have "\<not> (e = - 1022 \<or> 2 powi e \<le> \<bar>s\<bar>)"
      using binary64_grid [OF s e_ge] off unfolding q_def by blast
    then have ne: "e \<noteq> - 1022" and small: "\<bar>s\<bar> < 2 powi e"
      by simp_all
    from ne have "e = ilog2 x"
      by (auto simp: e_def max_def split: if_splits)
    with lg have below: "2 powi e \<le> x"
      by simp
    have "\<bar>r - x\<bar> \<le> \<bar>of_int (2 ^ 52) * q - x\<bar>"
      by (rule near_grid)
    also have "\<dots> = \<bar>2 powi e - x\<bar>"
      by (simp only: grid_e)
    also have "\<dots> < \<bar>s - x\<bar>"
      using small below by linarith
    finally show ?thesis .
  qed

  have nearest: "\<bar>r - x\<bar> \<le> \<bar>s - x\<bar>" if s: "is_binary64 s" for s
  proof (cases "\<exists>j :: int. s = of_int j * q")
    case True
    then show ?thesis
      using near_grid by auto
  next
    case False
    with off_grid [OF s] show ?thesis by simp
  qed

  have tie: "\<exists>k :: int. r = 2 * of_int k * \<bar>r - s\<bar>"
    if s: "is_binary64 s" and ne: "s \<noteq> r" and eq: "\<bar>s - x\<bar> = \<bar>r - x\<bar>" for s
  proof -
    from off_grid [OF s] eq obtain j :: int where j: "s = of_int j * q"
      by fastforce
    from ne have jN: "j \<noteq> round_half_even (x / q)"
      by (auto simp: j r_def N_def)
    from eq have "\<bar>of_int j * q - x\<bar> = \<bar>of_int (round_half_even (x / q)) * q - x\<bar>"
      by (simp add: j r_def N_def)
    from grid_tie [OF qpos jN this] have ev: "even N" and dist: "\<bar>r - s\<bar> = q"
      by (simp_all add: N_def r_def j)
    from ev obtain k where "N = 2 * k"
      by (elim evenE)
    then have "r = 2 * of_int k * \<bar>r - s\<bar>"
      unfolding dist by (simp add: r_def)
    then show ?thesis
      by blast
  qed

  have e_small: "e \<le> 1023" if "x < 2 powi 1024"
  proof -
    from lg that have "(2 :: rat) powi (ilog2 x) < 2 powi 1024"
      by linarith
    then have "ilog2 x < 1024"
      by (rule powi_less_cancel)
    then show ?thesis
      by (simp add: e_def)
  qed
  have thr_less: "overflow_threshold < 2 powi 1024"
    by (simp add: overflow_threshold_def)

  have no_overflow: "r < 2 powi 1024 \<and> is_binary64 r" if below: "x < overflow_threshold"
  proof -
    from below thr_less have e1023: "e \<le> 1023"
      by (intro e_small) linarith
    have top: "N < 2 ^ 53" if "e = 1023"
    proof -
      from that have "q = 2 powi 971"
        by (simp add: q_def)
      with below have "x < (of_int (2 ^ 53) - 1 / 2) * q"
        by (simp add: threshold_eq)
      then have "x / q < of_int (2 ^ 53) - 1 / 2"
        using qpos by (simp only: pos_divide_less_eq)
      then show ?thesis
        unfolding N_def by (rule round_half_even_less)
    qed
    show ?thesis
    proof (cases "N < 2 ^ 53")
      case True
      then have "\<bar>N\<bar> < 2 ^ 53 \<and> - 1074 \<le> e - 52 \<and> e - 52 \<le> 971 \<and>
          r = of_int N * 2 powi (e - 52)"
        using N_ge e_ge e1023 by (simp add: r_def q_def)
      then have b: "is_binary64 r"
        unfolding is_binary64_def by blast
      have "r < of_int (2 ^ 53) * q"
        unfolding r_def using True qpos
        by (intro mult_strict_right_mono) (simp_all only: of_int_less_iff)
      also have "\<dots> = 2 powi e1"
        by (simp add: grid_e1)
      also have "\<dots> \<le> 2 powi 1024"
        using e1023 by (intro powi_mono) (simp add: e1_def)
      finally show ?thesis
        using b by simp
    next
      case False
      with N_le have N: "N = 2 ^ 53"
        by simp
      with top e1023 have e1022: "e \<le> 1022"
        by (cases "e = 1023") auto
      have r: "r = 2 powi e1"
        by (simp add: r_def N grid_e1)
      have "(2 :: rat) powi e1 = 2 powi (52 + (e - 51))"
        by (rule arg_cong [where f = "power_int 2"]) (simp add: e1_def)
      also have "\<dots> = 2 powi 52 * 2 powi (e - 51)"
        by (rule powi_add)
      finally have "r = of_int (2 ^ 52) * 2 powi (e - 51)"
        by (simp add: r)
      then have "\<bar>2 ^ 52 :: int\<bar> < 2 ^ 53 \<and> - 1074 \<le> e - 51 \<and> e - 51 \<le> 971 \<and>
          r = of_int (2 ^ 52) * 2 powi (e - 51)"
        using e_ge e1022 by simp
      then have b: "is_binary64 r"
        unfolding is_binary64_def by blast
      have "r < 2 powi 1024"
        unfolding r using e1022 by (intro powi_strict_mono) (simp add: e1_def)
      with b show ?thesis by simp
    qed
  qed

  have overflow: "2 powi 1024 \<le> r" if above: "overflow_threshold \<le> x"
  proof (cases "1024 \<le> e")
    case True
    then have "e = ilog2 x"
      by (auto simp: e_def max_def split: if_splits)
    with lg have "of_int (2 ^ 52) * q \<le> x"
      by (simp only: grid_e [symmetric])
    then have "of_int (2 ^ 52) \<le> x / q"
      using qpos by (simp only: pos_le_divide_eq)
    then have "of_int (2 ^ 52) - 1 / 2 \<le> x / q"
      by linarith
    then have "2 ^ 52 \<le> N"
      unfolding N_def by (intro round_half_even_ge) simp_all
    then have "of_int (2 ^ 52) * q \<le> r"
      unfolding r_def using qpos
      by (intro mult_right_mono) (simp_all only: of_int_le_iff less_imp_le)
    moreover have "(2 :: rat) powi 1024 \<le> 2 powi e"
      using True by (rule powi_mono)
    ultimately show ?thesis
      by (simp add: grid_e)
  next
    case False
    have "(2 :: rat) powi 1023 \<le> overflow_threshold"
      by (simp add: overflow_threshold_def)
    with above have "(2 :: rat) powi 1023 \<le> x"
      by linarith
    then have "1023 \<le> ilog2 x"
      using ilog2_ge_iff [OF pos] by simp
    with False have e: "e = 1023"
      by (simp add: e_def)
    then have q: "q = 2 powi 971"
      by (simp add: q_def)
    with above have "(of_int (2 ^ 53) - 1 / 2) * q \<le> x"
      by (simp add: threshold_eq)
    then have "of_int (2 ^ 53) - 1 / 2 \<le> x / q"
      using qpos by (simp only: pos_le_divide_eq)
    then have "2 ^ 53 \<le> N"
      unfolding N_def by (intro round_half_even_ge) simp_all
    then have "of_int (2 ^ 53) * q \<le> r"
      unfolding r_def using qpos
      by (intro mult_right_mono) (simp_all only: of_int_le_iff less_imp_le)
    then have "2 powi e1 \<le> r"
      by (simp add: grid_e1)
    moreover have "e1 = 1024"
      by (simp add: e1_def e)
    ultimately show ?thesis
      by simp
  qed

  show ?thesis
  proof (cases "overflow_threshold \<le> x")
    case True
    from overflow [OF True] have "0 < r"
      by (rule less_le_trans [rotated]) simp
    with overflow [OF True] have "1024 \<le> ilog2 r"
      using ilog2_ge_iff [of r 1024] by simp
    with True show ?thesis
      by (simp add: rd correctly_rounded_def)
  next
    case False
    then have below: "x < overflow_threshold"
      by simp
    from no_overflow [OF below] have small: "r < 2 powi 1024" and b: "is_binary64 r"
      by simp_all
    have "\<not> 1024 \<le> ilog2 r"
    proof (cases "r = 0")
      case True
      then show ?thesis
        by (simp add: ilog2_zero)
    next
      case False
      with r_ge have "0 < r" by simp
      with small show ?thesis
        using ilog2_ge_iff [of r 1024] by simp
    qed
    then have "round_double x = Finite r"
      by (simp add: rd)
    moreover have "\<bar>x\<bar> < overflow_threshold"
      using pos below by simp
    ultimately show ?thesis
      using b nearest tie by (simp add: correctly_rounded_def)
  qed
qed


lemma is_binary64_zero: "is_binary64 0"
proof -
  have "\<bar>0 :: int\<bar> < 2 ^ 53 \<and> - 1074 \<le> (0 :: int) \<and> (0 :: int) \<le> 971 \<and>
      (0 :: rat) = of_int 0 * 2 powi 0"
    by simp
  then show ?thesis
    unfolding is_binary64_def by blast
qed

lemma round_double_neg: "0 < x \<Longrightarrow> round_double (- x) = float_neg (round_double x)"
  by (simp add: round_double_def Let_def)

lemma correctly_rounded_neg:
  assumes "correctly_rounded x y"
  shows "correctly_rounded (- x) (float_neg y)"
proof (cases y)
  case (Finite r)
  with assms have bound: "\<bar>x\<bar> < overflow_threshold" and b: "is_binary64 r"
    and near: "\<And>s. is_binary64 s \<Longrightarrow> \<bar>r - x\<bar> \<le> \<bar>s - x\<bar>"
    and tie: "\<And>s. is_binary64 s \<Longrightarrow> s \<noteq> r \<Longrightarrow> \<bar>s - x\<bar> = \<bar>r - x\<bar> \<Longrightarrow>
        \<exists>k :: int. r = 2 * of_int k * \<bar>r - s\<bar>"
    by (simp_all add: correctly_rounded_def)
  have near': "\<bar>- r - - x\<bar> \<le> \<bar>s - - x\<bar>" if "is_binary64 s" for s
    using near [of "- s"] that by (simp add: is_binary64_neg abs_minus_commute)
  have tie': "\<exists>k :: int. - r = 2 * of_int k * \<bar>- r - s\<bar>"
    if s: "is_binary64 s" and ne: "s \<noteq> - r" and eq: "\<bar>s - - x\<bar> = \<bar>- r - - x\<bar>" for s
  proof -
    from ne have "- s \<noteq> r" by auto
    moreover from eq have "\<bar>- s - x\<bar> = \<bar>r - x\<bar>"
      by (simp add: abs_minus_commute)
    ultimately obtain k :: int where "r = 2 * of_int k * \<bar>r - - s\<bar>"
      using tie [of "- s"] s by (auto simp: is_binary64_neg)
    then have "r = 2 * of_int k * \<bar>r - - s\<bar>" .
    moreover have "\<bar>- r - s\<bar> = \<bar>r - - s\<bar>"
      by linarith
    ultimately have "- r = 2 * of_int (- k) * \<bar>- r - s\<bar>"
      by simp
    then show ?thesis
      by blast
  qed
  show ?thesis
    using bound b near' tie' by (simp add: Finite correctly_rounded_def is_binary64_neg)
qed (use assms in \<open>simp_all add: correctly_rounded_def\<close>)

lemma round_double_correct: "correctly_rounded x (round_double x)"
proof -
  consider "x = 0" | "0 < x" | "0 < - x"
    by linarith
  then show ?thesis
  proof cases
    case 1
    have "(0 :: rat) < overflow_threshold"
      by (simp add: overflow_threshold_def)
    then show ?thesis
      by (simp add: 1 round_double_def correctly_rounded_def is_binary64_zero)
  next
    case 2
    then show ?thesis
      by (rule round_double_pos)
  next
    case 3
    from correctly_rounded_neg [OF round_double_pos [OF 3]] round_double_neg [OF 3]
    show ?thesis
      by simp
  qed
qed

lemma correctly_rounded_exact:
  assumes "correctly_rounded x (Finite r)" and "is_binary64 x"
  shows "r = x"
proof -
  from assms(1) have "\<forall>s. is_binary64 s \<longrightarrow> \<bar>r - x\<bar> \<le> \<bar>s - x\<bar>"
    by (simp add: correctly_rounded_def)
  with assms(2) have "\<bar>r - x\<bar> \<le> \<bar>x - x\<bar>"
    by blast
  then show ?thesis
    by simp
qed

lemma is_binary64_int:
  assumes "\<bar>n\<bar> \<le> 2 ^ 53"
  shows "is_binary64 (of_int n)"
proof (cases "\<bar>n\<bar> < 2 ^ 53")
  case True
  then have "\<bar>n\<bar> < 2 ^ 53 \<and> - 1074 \<le> (0 :: int) \<and> (0 :: int) \<le> 971 \<and>
      (of_int n :: rat) = of_int n * 2 powi 0"
    by simp
  then show ?thesis
    unfolding is_binary64_def by blast
next
  case False
  with assms have "n = 2 ^ 53 \<or> n = - (2 ^ 53)"
    by linarith
  then obtain m :: int where "\<bar>m\<bar> < 2 ^ 53" and "n = m * 2"
    by (elim disjE) (rule that [of "2 ^ 52"], simp, simp, rule that [of "- (2 ^ 52)"], simp, simp)
  then have "\<bar>m\<bar> < 2 ^ 53 \<and> - 1074 \<le> (1 :: int) \<and> (1 :: int) \<le> 971 \<and>
      (of_int n :: rat) = of_int m * 2 powi 1"
    by simp
  then show ?thesis
    unfolding is_binary64_def by blast
qed

lemma threshold_pos: "0 < overflow_threshold"
  by (simp add: overflow_threshold_def)

lemma correctly_rounded_unique:
  assumes "correctly_rounded x y" and "correctly_rounded x y'"
  shows "y = y'"
proof (cases y; cases y')
  fix r r' assume y: "y = Finite r" and y': "y' = Finite r'"
  from assms(1) y have b: "is_binary64 r"
    and near: "\<And>s. is_binary64 s \<Longrightarrow> \<bar>r - x\<bar> \<le> \<bar>s - x\<bar>"
    and tie: "\<And>s. is_binary64 s \<Longrightarrow> s \<noteq> r \<Longrightarrow> \<bar>s - x\<bar> = \<bar>r - x\<bar> \<Longrightarrow>
        \<exists>k :: int. r = 2 * of_int k * \<bar>r - s\<bar>"
    by (simp_all add: correctly_rounded_def)
  from assms(2) y' have b': "is_binary64 r'"
    and near': "\<And>s. is_binary64 s \<Longrightarrow> \<bar>r' - x\<bar> \<le> \<bar>s - x\<bar>"
    and tie': "\<And>s. is_binary64 s \<Longrightarrow> s \<noteq> r' \<Longrightarrow> \<bar>s - x\<bar> = \<bar>r' - x\<bar> \<Longrightarrow>
        \<exists>k :: int. r' = 2 * of_int k * \<bar>r' - s\<bar>"
    by (simp_all add: correctly_rounded_def)
  have "r = r'"
  proof (rule ccontr)
    assume ne: "r \<noteq> r'"
    from near [OF b'] near' [OF b] have eq: "\<bar>r' - x\<bar> = \<bar>r - x\<bar>"
      by simp
    define u where "u = \<bar>r - r'\<bar>"
    from ne have u: "0 < u"
      by (simp add: u_def)
    from tie [OF b' _ eq] ne obtain k :: int where k: "r = 2 * of_int k * u"
      by (auto simp: u_def)
    from tie' [OF b _ eq [symmetric]] ne obtain k' :: int where k': "r' = 2 * of_int k' * u"
      by (auto simp: u_def abs_minus_commute)
    define c :: rat where "c = of_int (2 * (k - k'))"
    have c: "c = 2 * of_int k - 2 * of_int k'"
      by (simp add: c_def)
    have "r - r' = 2 * of_int k * u - 2 * of_int k' * u"
      using k k' by simp
    also have "\<dots> = c * u"
      by (simp add: c left_diff_distrib)
    finally have "\<bar>r - r'\<bar> = \<bar>c\<bar> * u"
      using u by (simp add: abs_mult)
    then have "u = \<bar>c\<bar> * u"
      by (simp only: u_def [symmetric])
    with u have "\<bar>c\<bar> = 1"
      by auto
    moreover have "\<bar>c\<bar> = of_int \<bar>2 * (k - k')\<bar>"
      by (simp only: c_def of_int_abs)
    ultimately have "(of_int \<bar>2 * (k - k')\<bar> :: rat) = of_int 1"
      by (simp only: of_int_1)
    then have "\<bar>2 * (k - k')\<bar> = 1"
      by (simp only: of_int_eq_iff)
    then show False
      by presburger
  qed
  then show ?thesis
    by (simp add: y y')
qed (use assms threshold_pos in \<open>auto simp: correctly_rounded_def\<close>)

lemma int_to_float_correct:
  assumes "int_to_float n = Inr y"
  shows "\<exists>nf. y = Finite nf \<and> correctly_rounded (of_int n) (Finite nf)"
proof (cases "round_double (of_int n)")
  case (Finite r)
  with assms have "y = Finite r"
    by (simp add: int_to_float_def)
  with Finite round_double_correct [of "of_int n"] show ?thesis
    by simp
qed (use assms in \<open>simp_all add: int_to_float_def\<close>)

lemma int_to_float_exact:
  assumes "\<bar>n\<bar> \<le> 2 ^ 53"
  shows "int_to_float n = Inr (Finite (of_int n))"
proof -
  have "\<bar>of_int n :: rat\<bar> = of_int \<bar>n\<bar>"
    by simp
  also have "\<dots> \<le> of_int (2 ^ 53)"
    using assms by (simp only: of_int_le_iff)
  also have "\<dots> < overflow_threshold"
    by (simp add: overflow_threshold_def)
  finally have small: "\<bar>of_int n :: rat\<bar> < overflow_threshold" .
  show ?thesis
  proof (cases "round_double (of_int n)")
    case (Finite r)
    with round_double_correct [of "of_int n"] is_binary64_int [OF assms]
    have "r = of_int n"
      by (intro correctly_rounded_exact) simp_all
    with Finite show ?thesis
      by (simp add: int_to_float_def)
  qed (use small round_double_correct [of "of_int n"] in \<open>auto simp: correctly_rounded_def\<close>)
qed

lemma float_mul_int_correct:
  assumes "float_mul_int (Finite a) n = Inr t"
  shows "\<exists>nf. correctly_rounded (of_int n) (Finite nf) \<and>
           (\<bar>n\<bar> \<le> 2 ^ 53 \<longrightarrow> nf = of_int n) \<and> correctly_rounded (a * nf) t"
proof -
  from assms obtain y where y: "int_to_float n = Inr y" and t: "t = float_mul (Finite a) y"
    by (auto simp: float_mul_int_def split: sum.splits)
  from int_to_float_correct [OF y] obtain nf where nf: "y = Finite nf"
    and cr: "correctly_rounded (of_int n) (Finite nf)"
    by blast
  have "nf = of_int n" if "\<bar>n\<bar> \<le> 2 ^ 53"
    using int_to_float_exact [OF that] y nf by simp
  moreover have "correctly_rounded (a * nf) t"
    by (simp add: t nf round_double_correct)
  ultimately show ?thesis
    using cr by blast
qed

subsection \<open>Identifiers and lookups\<close>

lemma ObjectId_example: "ObjectId ''654a1b2c3d4e5f60718293a4'' = Some example_id"
  by code_simp

lemma ObjectId_fresh: "ObjectId ''654a1b2c3d4e5f60718293a5'' = Some fresh_id"
  by code_simp

lemma ObjectId_malformed: "ObjectId ''not-an-id'' = None"
  by (simp add: ObjectId_def)

lemma ObjectId_blank: "ObjectId blank_id = Some []"
  by code_simp

lemma ObjectId_padded:
  "ObjectId padded_id = Some [0x65, 0x4a, 0x1b, 0x2c, 0x3d, 0x4e, 0x5f, 0x60, 0x71, 0x82, 0x93]"
  by code_simp

lemma ObjectId_space_inside: "ObjectId ''654a1b2c3d4e5f60718293 a4'' = None"
  by code_simp

lemma str_oid_fresh: "str_oid fresh_id = ''654a1b2c3d4e5f60718293a5''"
  by code_simp

lemma example_id_neq_fresh: "example_id \<noteq> fresh_id"
  by (simp add: example_id_def fresh_id_def)

lemma example_db_event: "collections example_db ''event'' = [(example_id, example_event)]"
  by (simp add: example_db_def)

lemma fresh_id_absent: "fresh_id \<notin> fst ` set (collections example_db ''event'')"
  using example_id_neq_fresh by (simp add: example_db_event)

lemma no_bytes_absent: "[] \<notin> fst ` set (collections example_db ''event'')"
  by (simp add: example_db_event example_id_def)

lemma find_has_id_None: "find (has_id i) xs = None \<longleftrightarrow> i \<notin> fst ` set xs"
  by (induction xs) (auto simp: has_id_def)

lemma find_absent: "i \<notin> fst ` set xs \<Longrightarrow> find (has_id i) xs = None"
  by (simp add: find_has_id_None)

lemma filter_absent: "i \<notin> fst ` set xs \<Longrightarrow> filter (\<lambda>d. fst d \<noteq> i) xs = xs"
  by (induction xs) auto

lemma remove_first_distinct:
  "distinct (map fst xs) \<Longrightarrow> remove_first (has_id i) xs = filter (\<lambda>d. fst d \<noteq> i) xs"
  by (induction xs) (auto simp: has_id_def filter_absent)

lemma find_update_first:
  "(\<And>d. fst (f d) = fst d) \<Longrightarrow>
   find (has_id j) (update_first (has_id i) f xs) =
     (if j = i then map_option f (find (has_id i) xs) else find (has_id j) xs)"
  by (induction xs) (auto simp: has_id_def)

subsection \<open>Float arithmetic on the example values\<close>

lemma round_double_3: "round_double 3 = Finite 3"
  by code_simp



text \<open>
  The product is the rounded one: \<open>0.1 * 3\<close> is \<open>0.30000000000000004\<close> in Python, which
  is not the float \<open>0.3\<close>. (The three fractions are the binary64 numbers \<open>0.1\<close>,
  \<open>0.30000000000000004\<close> and \<open>0.3\<close>.)
\<close>

lemma round_double_three_tenths:
  "round_double (10808639105689191 / 36028797018963968) =
     Finite (1351079888211149 / 4503599627370496)"
  by code_simp

lemma float_mul_int_tenth:
  "float_mul_int (Finite (3602879701896397 / 36028797018963968)) 3 =
     Inr (Finite (1351079888211149 / 4503599627370496)) \<and>
   (1351079888211149 / 4503599627370496 :: rat) \<noteq> 5404319552844595 / 18014398509481984"
  by (simp add: float_mul_int_def int_to_float_def round_double_3 round_double_three_tenths)

subsection \<open>The update dict and \<open>$set\<close>\<close>

lemma updates_of_empty:
  "updates_of p = [] \<longleftrightarrow>
     title_opt p = None \<and> date_opt p = None \<and> dj_opt p = None \<and> price_opt p = None \<and>
     description_opt p = None \<and> image_opt p = None"
  by (simp add: updates_of_def model_dump_EventUpdate_def opt_str_def opt_float_def
      split: option.splits)

lemma updates_of_empty_payload: "updates_of empty_payload = []"
  by (simp add: updates_of_empty empty_payload_def)

lemma updates_of_title_payload:
  "updates_of title_payload = [(''title'', VStr ''Closing Night'')]"
  by (simp add: updates_of_def model_dump_EventUpdate_def opt_str_def opt_float_def
      title_payload_def empty_payload_def)

lemma distinct_updates_of: "distinct (map fst (updates_of p))"
  by (simp add: updates_of_def model_dump_EventUpdate_def distinct_map_filter)

lemma foldl_update_map_of:
  "map_of (foldl (\<lambda>f (k, v). AList.update k v f) f ups) = map_of f ++ map_of (rev ups)"
proof (induction ups arbitrary: f)
  case Nil
  then show ?case by simp
next
  case (Cons u ups)
  obtain k v where u: "u = (k, v)" by (cases u)
  have "map_of (AList.update k v f) ++ map_of (rev ups) =
        map_of f ++ (map_of [(k, v)] ++ map_of (rev ups))"
    unfolding update_conv' map_add_assoc [symmetric] by simp
  with Cons.IH [of "AList.update k v f"] show ?case
    by (simp add: u)
qed

lemma map_of_rev_distinct: "distinct (map fst xs) \<Longrightarrow> map_of (rev xs) = map_of xs"
  by (rule map_of_inject_set [THEN iffD2]) (simp_all add: rev_map [symmetric])

lemma map_of_non_null:
  "distinct (map fst xs) \<Longrightarrow>
   map_of (filter (\<lambda>(k, v). v \<noteq> VNone) xs) k =
     (if map_of xs k = Some VNone then None else map_of xs k)"
proof (induction xs)
  case Nil
  then show ?case by simp
next
  case (Cons x xs)
  obtain k' v' where x: "x = (k', v')" by (cases x)
  from Cons.prems have "k' \<notin> fst ` set (filter (\<lambda>(k, v). v \<noteq> VNone) xs)"
    by (auto simp: x)
  then have dropped: "map_of (filter (\<lambda>(k, v). v \<noteq> VNone) xs) k' = None"
    by (simp add: map_of_eq_None_iff)
  from Cons.prems have "k' \<notin> fst ` set xs"
    by (auto simp: x)
  then have unbound: "map_of xs k' = None"
    by (simp add: map_of_eq_None_iff)
  from Cons show ?case
    by (simp add: x dropped unbound)
qed

lemma fst_set_fields: "fst (set_fields ups d) = fst d"
  by (simp add: set_fields_def)

lemma set_fields_Nil: "set_fields [] d = d"
  by (simp add: set_fields_def)

lemma set_fields_updates_of:
  "map_of (snd (set_fields (updates_of p) d)) k =
     (case map_of (model_dump_EventUpdate p) k of
        None \<Rightarrow> map_of (snd d) k
      | Some v \<Rightarrow> if v = VNone then map_of (snd d) k else Some v)"
proof -
  have dist: "distinct (map fst (model_dump_EventUpdate p))"
    by (simp add: model_dump_EventUpdate_def)
  have "map_of (snd (set_fields (updates_of p) d)) k =
        (map_of (snd d) ++ map_of (updates_of p)) k"
    by (simp add: set_fields_def foldl_update_map_of map_of_rev_distinct distinct_updates_of)
  also have "\<dots> = (case map_of (updates_of p) k of None \<Rightarrow> map_of (snd d) k | Some v \<Rightarrow> Some v)"
    by (simp add: map_add_def)
  also have "map_of (updates_of p) k =
      (if map_of (model_dump_EventUpdate p) k = Some VNone then None
       else map_of (model_dump_EventUpdate p) k)"
    by (simp add: updates_of_def map_of_non_null [OF dist])
  finally show ?thesis
    by (simp split: option.splits)
qed

subsection \<open>What the handlers do when the Event is found\<close>

lemma update_event_found:
  "ObjectId eid = Some i \<Longrightarrow> find (has_id i) (collections db ''event'') = Some d \<Longrightarrow>
   update_event db eid payload =
     (Inr [(''updated'',
            VBool (updates_of payload \<noteq> [] \<and> set_fields (updates_of payload) d \<noteq> d))],
      if updates_of payload = [] then db
      else db\<lparr>collections := (collections db)
                 (''event'' := update_first (has_id i) (set_fields (updates_of payload))
                                 (collections db ''event'')),
              calls := calls db @ [UpdateOne ''event'']\<rparr>)"
  by (simp add: update_event_def to_object_id_def update_one_def Let_def)

lemma update_event_lookup:
  assumes "ObjectId eid = Some i" and "find (has_id i) (collections db ''event'') = Some d"
  shows "find (has_id j) (collections (snd (update_event db eid payload)) ''event'') =
           (if j = i then Some (set_fields (updates_of payload) d)
            else find (has_id j) (collections db ''event''))"
proof (cases "updates_of payload = []")
  case True
  with assms show ?thesis
    by (simp add: update_event_found set_fields_Nil)
next
  case False
  with assms show ?thesis
    by (simp add: update_event_found find_update_first fst_set_fields)
qed




section \<open>Purchasing tickets\<close>



text \<open>
  C5. A purchase whose \<open>event_id\<close> is a well-formed identifier that matches no Event
  raises \<open>HTTPException(404, "Event not found")\<close>; one whose \<open>event_id\<close> is malformed
  raises \<open>HTTPException(400, "Invalid ID format")\<close>. In both cases no collection is
  changed, so no TicketPurchase document is created; the only driver call of the first
  case is the lookup, and the second case issues none.
\<close>

theorem purchase_event_not_found:
  "(ObjectId (event_id req) = Some i \<and> i \<notin> fst ` set (collections db ''event'')
    \<longrightarrow> fst (purchase_ticket float_of_str db new_id req) =
          Inl (HTTPException 404 ''Event not found'') \<and>
        collections (snd (purchase_ticket float_of_str db new_id req)) = collections db \<and>
        calls (snd (purchase_ticket float_of_str db new_id req)) =
          calls db @ [FindOne ''event'']) \<and>
   (ObjectId (event_id req) = None
    \<longrightarrow> purchase_ticket float_of_str db new_id req =
          (Inl (HTTPException 400 ''Invalid ID format''), db))"
  by (simp add: purchase_ticket_def to_object_id_def find_one_def find_absent)

theorem purchase_event_not_found_witness:
  "ObjectId (event_id (example_request\<lparr>event_id := ''654a1b2c3d4e5f60718293a5''\<rparr>)) =
     Some fresh_id \<and>
   fresh_id \<notin> fst ` set (collections example_db ''event'') \<and>
   fst (purchase_ticket (\<lambda>s. None) example_db fresh_id
          (example_request\<lparr>event_id := ''654a1b2c3d4e5f60718293a5''\<rparr>)) =
     Inl (HTTPException 404 ''Event not found'') \<and>
   collections (snd (purchase_ticket (\<lambda>s. None) example_db fresh_id
          (example_request\<lparr>event_id := ''654a1b2c3d4e5f60718293a5''\<rparr>))) ''ticketpurchase'' =
     [] \<and>
   ObjectId (event_id (example_request\<lparr>event_id := blank_id\<rparr>)) = Some [] \<and>
   fst (purchase_ticket (\<lambda>s. None) example_db fresh_id
          (example_request\<lparr>event_id := blank_id\<rparr>)) =
     Inl (HTTPException 404 ''Event not found'') \<and>
   ObjectId (event_id (example_request\<lparr>event_id := ''not-an-id''\<rparr>)) = None \<and>
   purchase_ticket (\<lambda>s. None) example_db fresh_id
          (example_request\<lparr>event_id := ''not-an-id''\<rparr>) =
     (Inl (HTTPException 400 ''Invalid ID format''), example_db)"
  using ObjectId_fresh ObjectId_blank ObjectId_malformed fresh_id_absent no_bytes_absent
    purchase_event_not_found [of "example_request\<lparr>event_id := ''654a1b2c3d4e5f60718293a5''\<rparr>"
      fresh_id example_db "\<lambda>s. None" fresh_id]
    purchase_event_not_found [of "example_request\<lparr>event_id := blank_id\<rparr>"
      "[]" example_db "\<lambda>s. None" fresh_id]
    purchase_event_not_found [of "example_request\<lparr>event_id := ''not-an-id''\<rparr>"
      fresh_id example_db "\<lambda>s. None" fresh_id]
  by (simp add: example_db_def)

text \<open>
  C5 as it is worded, with 404 for every \<open>event_id\<close> that does not resolve to an Event,
  fails on a malformed identifier: \<open>to_object_id\<close> raises 400 before the lookup.
\<close>

theorem purchase_malformed_counterexample:
  "ObjectId ''not-an-id'' = None \<and>
   fst (purchase_ticket (\<lambda>s. None) example_db fresh_id
          (example_request\<lparr>event_id := ''not-an-id''\<rparr>)) =
     Inl (HTTPException 400 ''Invalid ID format'') \<and>
   status_code (HTTPException 400 ''Invalid ID format'') \<noteq> 404"
  by (simp add: ObjectId_malformed purchase_ticket_def to_object_id_def)

section \<open>Reading an Event\<close>

text \<open>
  C3. \<open>get_event\<close> raises \<open>HTTPException(404, "Event not found")\<close> when the identifier
  is well-formed and matches no stored Event, and \<open>HTTPException(400, "Invalid ID
  format")\<close> when the identifier is malformed; the malformed case never reaches the store.
  Well-formed is what \<open>ObjectId\<close> accepts, malformed what it raises on: a string of
  length 24 made of pairs of hexadecimal digits and whitespace is well-formed.
\<close>

theorem get_event_errors:
  "(ObjectId eid = Some i \<and> i \<notin> fst ` set (collections db ''event'')
      \<longrightarrow> fst (get_event db eid) = Inl (HTTPException 404 ''Event not found'')) \<and>
   (ObjectId eid = None
      \<longrightarrow> get_event db eid = (Inl (HTTPException 400 ''Invalid ID format''), db))"
  by (simp add: get_event_def to_object_id_def find_one_def find_absent)

theorem get_event_errors_witness:
  "ObjectId ''654a1b2c3d4e5f60718293a5'' = Some fresh_id \<and>
   fresh_id \<notin> fst ` set (collections example_db ''event'') \<and>
   fst (get_event example_db ''654a1b2c3d4e5f60718293a5'') =
     Inl (HTTPException 404 ''Event not found'') \<and>
   ObjectId blank_id = Some [] \<and>
   fst (get_event example_db blank_id) = Inl (HTTPException 404 ''Event not found'') \<and>
   ObjectId ''not-an-id'' = None \<and>
   get_event example_db ''not-an-id'' =
     (Inl (HTTPException 400 ''Invalid ID format''), example_db)"
  using fresh_id_absent no_bytes_absent ObjectId_fresh ObjectId_blank ObjectId_malformed
    get_event_errors [of "''654a1b2c3d4e5f60718293a5''" fresh_id example_db]
    get_event_errors [of blank_id "[]" example_db]
    get_event_errors [of "''not-an-id''" fresh_id example_db]
  by simp

text \<open>
  C3 as it is worded, with NotFound for a malformed identifier too, fails: the malformed
  identifier is answered with status 400, not 404.
\<close>

theorem get_event_malformed_counterexample:
  "ObjectId ''not-an-id'' = None \<and>
   fst (get_event example_db ''not-an-id'') = Inl (HTTPException 400 ''Invalid ID format'') \<and>
   status_code (HTTPException 400 ''Invalid ID format'') \<noteq> 404"
  by (simp add: get_event_def to_object_id_def ObjectId_malformed)

section \<open>Updating an Event\<close>

text \<open>
  C2. An update whose payload has at least one non-null field and whose identifier is
  well-formed but matches no Event raises \<open>HTTPException(404, "Event not found")\<close> and
  changes no collection. With such a payload and a malformed identifier it raises
  \<open>HTTPException(400, "Invalid ID format")\<close>. With a payload that has no non-null field
  it returns \<open>{"updated": False}\<close> whatever the identifier, because the handler returns
  before it looks at the identifier.
\<close>

theorem update_event_not_found:
  "(updates_of payload \<noteq> [] \<and> ObjectId eid = Some i \<and>
      i \<notin> fst ` set (collections db ''event'')
    \<longrightarrow> fst (update_event db eid payload) = Inl (HTTPException 404 ''Event not found'') \<and>
        collections (snd (update_event db eid payload)) = collections db) \<and>
   (updates_of payload \<noteq> [] \<and> ObjectId eid = None
    \<longrightarrow> update_event db eid payload = (Inl (HTTPException 400 ''Invalid ID format''), db)) \<and>
   (updates_of payload = []
    \<longrightarrow> update_event db eid payload = (Inr [(''updated'', VBool False)], db))"
  by (simp add: update_event_def to_object_id_def update_one_def find_absent)

theorem update_event_not_found_witness:
  "updates_of title_payload \<noteq> [] \<and>
   ObjectId ''654a1b2c3d4e5f60718293a5'' = Some fresh_id \<and>
   fresh_id \<notin> fst ` set (collections example_db ''event'') \<and>
   fst (update_event example_db ''654a1b2c3d4e5f60718293a5'' title_payload) =
     Inl (HTTPException 404 ''Event not found'') \<and>
   ObjectId blank_id = Some [] \<and>
   fst (update_event example_db blank_id title_payload) =
     Inl (HTTPException 404 ''Event not found'') \<and>
   ObjectId ''not-an-id'' = None \<and>
   update_event example_db ''not-an-id'' title_payload =
     (Inl (HTTPException 400 ''Invalid ID format''), example_db) \<and>
   updates_of empty_payload = [] \<and>
   update_event example_db ''654a1b2c3d4e5f60718293a5'' empty_payload =
     (Inr [(''updated'', VBool False)], example_db)"
  using ObjectId_fresh ObjectId_blank ObjectId_malformed fresh_id_absent no_bytes_absent
    updates_of_empty_payload updates_of_title_payload
    update_event_not_found [of title_payload "''654a1b2c3d4e5f60718293a5''" fresh_id example_db]
    update_event_not_found [of title_payload blank_id "[]" example_db]
    update_event_not_found [of title_payload "''not-an-id''" fresh_id example_db]
    update_event_not_found [of empty_payload "''654a1b2c3d4e5f60718293a5''" fresh_id example_db]
  by simp

text \<open>
  C2 as it is worded, with 404 "regardless of the payload", fails on the empty payload:
  for an identifier that matches no Event the handler returns \<open>{"updated": False}\<close>.
\<close>

theorem update_event_empty_counterexample:
  "ObjectId ''654a1b2c3d4e5f60718293a5'' = Some fresh_id \<and>
   fresh_id \<notin> fst ` set (collections example_db ''event'') \<and>
   fst (update_event example_db ''654a1b2c3d4e5f60718293a5'' empty_payload) =
     Inr [(''updated'', VBool False)]"
  by (simp add: ObjectId_fresh fresh_id_absent update_event_def updates_of_empty_payload)

text \<open>
  C6. An update whose payload has no non-null field returns \<open>{"updated": False}\<close> and
  leaves the database as it was, whatever the identifier: no driver call is issued and
  every stored document keeps every field.
\<close>

theorem update_event_empty_payload:
  "title_opt payload = None \<and> date_opt payload = None \<and> dj_opt payload = None \<and>
   price_opt payload = None \<and> description_opt payload = None \<and> image_opt payload = None
   \<Longrightarrow> update_event db eid payload = (Inr [(''updated'', VBool False)], db)"
  by (simp add: update_event_def updates_of_def model_dump_EventUpdate_def opt_str_def
      opt_float_def)

theorem update_event_empty_payload_witness:
  "title_opt empty_payload = None \<and>
   update_event example_db ''654a1b2c3d4e5f60718293a4'' empty_payload =
     (Inr [(''updated'', VBool False)], example_db) \<and>
   update_event example_db ''not-an-id'' empty_payload =
     (Inr [(''updated'', VBool False)], example_db)"
proof -
  have none: "title_opt empty_payload = None \<and> date_opt empty_payload = None \<and>
      dj_opt empty_payload = None \<and> price_opt empty_payload = None \<and>
      description_opt empty_payload = None \<and> image_opt empty_payload = None"
    by (simp add: empty_payload_def)
  show ?thesis
    using none
      update_event_empty_payload [OF none, of example_db "''654a1b2c3d4e5f60718293a4''"]
      update_event_empty_payload [OF none, of example_db "''not-an-id''"]
    by simp
qed

text \<open>
  C7. An update of an existing Event succeeds, and afterwards the Event's document has,
  for each of the six payload fields, the payload's value when that value is present and
  non-null and the previously stored value otherwise; every other field of the document
  keeps its value, every other Event is found as before, and every other collection is
  unchanged.
\<close>

theorem update_event_frame:
  "ObjectId eid = Some i \<and> find (has_id i) (collections db ''event'') = Some d \<Longrightarrow>
   (\<exists>b. fst (update_event db eid payload) = Inr [(''updated'', VBool b)]) \<and>
   (\<exists>d'. find (has_id i) (collections (snd (update_event db eid payload)) ''event'') = Some d' \<and>
      map_of (snd d') ''title'' =
        (case title_opt payload of None \<Rightarrow> map_of (snd d) ''title'' | Some s \<Rightarrow> Some (VStr s)) \<and>
      map_of (snd d') ''date'' =
        (case date_opt payload of None \<Rightarrow> map_of (snd d) ''date'' | Some s \<Rightarrow> Some (VStr s)) \<and>
      map_of (snd d') ''dj'' =
        (case dj_opt payload of None \<Rightarrow> map_of (snd d) ''dj'' | Some s \<Rightarrow> Some (VStr s)) \<and>
      map_of (snd d') ''price'' =
        (case price_opt payload of None \<Rightarrow> map_of (snd d) ''price'' | Some x \<Rightarrow> Some (VFloat x)) \<and>
      map_of (snd d') ''description'' =
        (case description_opt payload of None \<Rightarrow> map_of (snd d) ''description''
         | Some s \<Rightarrow> Some (VStr s)) \<and>
      map_of (snd d') ''image'' =
        (case image_opt payload of None \<Rightarrow> map_of (snd d) ''image'' | Some s \<Rightarrow> Some (VStr s)) \<and>
      (\<forall>k. k \<notin> set [''title'', ''date'', ''dj'', ''price'', ''description'', ''image'']
         \<longrightarrow> map_of (snd d') k = map_of (snd d) k)) \<and>
   (\<forall>j. j \<noteq> i \<longrightarrow>
      find (has_id j) (collections (snd (update_event db eid payload)) ''event'') =
      find (has_id j) (collections db ''event'')) \<and>
   (\<forall>c. c \<noteq> ''event'' \<longrightarrow> collections (snd (update_event db eid payload)) c = collections db c)"
proof -
  assume a: "ObjectId eid = Some i \<and> find (has_id i) (collections db ''event'') = Some d"
  then have oid: "ObjectId eid = Some i"
    and found: "find (has_id i) (collections db ''event'') = Some d"
    by simp_all
  let ?db' = "snd (update_event db eid payload)"
  let ?d' = "set_fields (updates_of payload) d"
  have result: "\<exists>b. fst (update_event db eid payload) = Inr [(''updated'', VBool b)]"
    by (simp add: update_event_found [OF oid found])
  have new: "find (has_id i) (collections ?db' ''event'') = Some ?d'"
    by (simp add: update_event_lookup [OF oid found])
  have others: "\<forall>j. j \<noteq> i \<longrightarrow>
      find (has_id j) (collections ?db' ''event'') = find (has_id j) (collections db ''event'')"
    by (simp add: update_event_lookup [OF oid found])
  have colls: "\<forall>c. c \<noteq> ''event'' \<longrightarrow> collections ?db' c = collections db c"
    by (simp add: update_event_found [OF oid found])
  have title: "map_of (snd ?d') ''title'' =
      (case title_opt payload of None \<Rightarrow> map_of (snd d) ''title'' | Some s \<Rightarrow> Some (VStr s))"
    by (simp add: set_fields_updates_of model_dump_EventUpdate_def opt_str_def
        split: option.splits)
  have date: "map_of (snd ?d') ''date'' =
      (case date_opt payload of None \<Rightarrow> map_of (snd d) ''date'' | Some s \<Rightarrow> Some (VStr s))"
    by (simp add: set_fields_updates_of model_dump_EventUpdate_def opt_str_def
        split: option.splits)
  have dj: "map_of (snd ?d') ''dj'' =
      (case dj_opt payload of None \<Rightarrow> map_of (snd d) ''dj'' | Some s \<Rightarrow> Some (VStr s))"
    by (simp add: set_fields_updates_of model_dump_EventUpdate_def opt_str_def
        split: option.splits)
  have price: "map_of (snd ?d') ''price'' =
      (case price_opt payload of None \<Rightarrow> map_of (snd d) ''price'' | Some x \<Rightarrow> Some (VFloat x))"
    by (simp add: set_fields_updates_of model_dump_EventUpdate_def opt_float_def
        split: option.splits)
  have description: "map_of (snd ?d') ''description'' =
      (case description_opt payload of None \<Rightarrow> map_of (snd d) ''description''
       | Some s \<Rightarrow> Some (VStr s))"
    by (simp add: set_fields_updates_of model_dump_EventUpdate_def opt_str_def
        split: option.splits)
  have image: "map_of (snd ?d') ''image'' =
      (case image_opt payload of None \<Rightarrow> map_of (snd d) ''image'' | Some s \<Rightarrow> Some (VStr s))"
    by (simp add: set_fields_updates_of model_dump_EventUpdate_def opt_str_def
        split: option.splits)
  have rest: "\<forall>k. k \<notin> set [''title'', ''date'', ''dj'', ''price'', ''description'', ''image'']
      \<longrightarrow> map_of (snd ?d') k = map_of (snd d) k"
    by (simp add: set_fields_updates_of model_dump_EventUpdate_def)
  from new title date dj price description image rest
  have "\<exists>d'. find (has_id i) (collections ?db' ''event'') = Some d' \<and>
      map_of (snd d') ''title'' =
        (case title_opt payload of None \<Rightarrow> map_of (snd d) ''title'' | Some s \<Rightarrow> Some (VStr s)) \<and>
      map_of (snd d') ''date'' =
        (case date_opt payload of None \<Rightarrow> map_of (snd d) ''date'' | Some s \<Rightarrow> Some (VStr s)) \<and>
      map_of (snd d') ''dj'' =
        (case dj_opt payload of None \<Rightarrow> map_of (snd d) ''dj'' | Some s \<Rightarrow> Some (VStr s)) \<and>
      map_of (snd d') ''price'' =
        (case price_opt payload of None \<Rightarrow> map_of (snd d) ''price'' | Some x \<Rightarrow> Some (VFloat x)) \<and>
      map_of (snd d') ''description'' =
        (case description_opt payload of None \<Rightarrow> map_of (snd d) ''description''
         | Some s \<Rightarrow> Some (VStr s)) \<and>
      map_of (snd d') ''image'' =
        (case image_opt payload of None \<Rightarrow> map_of (snd d) ''image'' | Some s \<Rightarrow> Some (VStr s)) \<and>
      (\<forall>k. k \<notin> set [''title'', ''date'', ''dj'', ''price'', ''description'', ''image'']
         \<longrightarrow> map_of (snd d') k = map_of (snd d) k)"
    by blast
  with result others colls show ?thesis
    by blast
qed

theorem update_event_frame_witness:
  "ObjectId ''654a1b2c3d4e5f60718293a4'' = Some example_id \<and>
   find (has_id example_id) (collections example_db ''event'') =
     Some (example_id, example_event) \<and>
   (\<exists>d'. find (has_id example_id)
           (collections (snd (update_event example_db ''654a1b2c3d4e5f60718293a4''
              title_payload)) ''event'') = Some d' \<and>
      map_of (snd d') ''title'' = Some (VStr ''Closing Night'') \<and>
      map_of (snd d') ''date'' = Some (VStr ''2025-01-31'') \<and>
      map_of (snd d') ''dj'' = Some (VStr ''Mila'') \<and>
      map_of (snd d') ''price'' = Some (VFloat (Finite 10)) \<and>
      map_of (snd d') ''description'' = Some VNone \<and>
      map_of (snd d') ''image'' = Some VNone)"
proof -
  have pre: "ObjectId ''654a1b2c3d4e5f60718293a4'' = Some example_id \<and>
      find (has_id example_id) (collections example_db ''event'') =
        Some (example_id, example_event)"
    by (simp add: ObjectId_example example_db_event has_id_def)
  show ?thesis
    using pre update_event_frame [OF pre, of title_payload]
    by (simp add: title_payload_def empty_payload_def example_event_def) blast
qed

section \<open>Deleting an Event\<close>

text \<open>
  C9. For a stored Event (identifiers being unique within the collection, as the store
  keeps them), \<open>delete_event\<close> by its identifier returns \<open>{"deleted": True}\<close> and removes
  exactly that document; a second \<open>delete_event\<close> of the same identifier on the
  resulting database raises \<open>HTTPException(404, "Event not found")\<close>.
\<close>

theorem delete_event_twice:
  "ObjectId eid = Some i \<and> i \<in> fst ` set (collections db ''event'') \<and>
   distinct (map fst (collections db ''event'')) \<Longrightarrow>
     fst (delete_event db eid) = Inr [(''deleted'', VBool True)] \<and>
     collections (snd (delete_event db eid)) ''event'' =
       filter (\<lambda>d. fst d \<noteq> i) (collections db ''event'') \<and>
     i \<notin> fst ` set (collections (snd (delete_event db eid)) ''event'') \<and>
     fst (delete_event (snd (delete_event db eid)) eid) =
       Inl (HTTPException 404 ''Event not found'')"
proof -
  assume a: "ObjectId eid = Some i \<and> i \<in> fst ` set (collections db ''event'') \<and>
    distinct (map fst (collections db ''event''))"
  let ?xs = "collections db ''event''"
  let ?db1 = "snd (delete_event db eid)"
  from a have found: "find (has_id i) ?xs \<noteq> None"
    by (simp add: find_has_id_None)
  from a have first: "delete_event db eid =
      (Inr [(''deleted'', VBool True)],
       db\<lparr>collections := (collections db)(''event'' := remove_first (has_id i) ?xs),
          calls := calls db @ [DeleteOne ''event'']\<rparr>)"
    using found by (simp add: delete_event_def to_object_id_def delete_one_def)
  have coll: "collections ?db1 ''event'' = filter (\<lambda>d. fst d \<noteq> i) ?xs"
    using a by (simp add: first remove_first_distinct)
  have gone: "i \<notin> fst ` set (collections ?db1 ''event'')"
    by (auto simp: coll)
  have second: "fst (delete_event ?db1 eid) = Inl (HTTPException 404 ''Event not found'')"
    using a gone by (simp add: delete_event_def to_object_id_def delete_one_def find_absent)
  show ?thesis
    using first coll gone second by simp
qed

theorem delete_event_twice_witness:
  "ObjectId ''654a1b2c3d4e5f60718293a4'' = Some example_id \<and>
   example_id \<in> fst ` set (collections example_db ''event'') \<and>
   distinct (map fst (collections example_db ''event'')) \<and>
   fst (delete_event example_db ''654a1b2c3d4e5f60718293a4'') =
     Inr [(''deleted'', VBool True)] \<and>
   collections (snd (delete_event example_db ''654a1b2c3d4e5f60718293a4'')) ''event'' = [] \<and>
   fst (delete_event (snd (delete_event example_db ''654a1b2c3d4e5f60718293a4''))
          ''654a1b2c3d4e5f60718293a4'') =
     Inl (HTTPException 404 ''Event not found'')"
proof -
  have pre: "ObjectId ''654a1b2c3d4e5f60718293a4'' = Some example_id \<and>
      example_id \<in> fst ` set (collections example_db ''event'') \<and>
      distinct (map fst (collections example_db ''event''))"
    by (simp add: ObjectId_example example_db_event)
  show ?thesis
    using pre delete_event_twice [OF pre]
    by (simp add: example_db_event)
qed

section \<open>Creating an Event\<close>







section \<open>The admin gate\<close>

text \<open>
  C4. An admin mutation (create, update or delete of an Event) called with a token that
  is not the configured secret raises \<open>HTTPException(401, "Unauthorized")\<close> and leaves
  the database as it was: the collections are unchanged and no driver call is issued.
\<close>

theorem admin_unauthorized:
  "token \<noteq> ADMIN_TOKEN environ \<Longrightarrow>
     admin_add_event environ db new_id event token =
       (Inl (HTTPException 401 ''Unauthorized''), db) \<and>
     admin_edit_event environ db eid payload token =
       (Inl (HTTPException 401 ''Unauthorized''), db) \<and>
     admin_delete_event environ db eid token =
       (Inl (HTTPException 401 ''Unauthorized''), db) \<and>
     status_code (HTTPException 401 ''Unauthorized'') = 401"
  by (simp add: admin_add_event_def admin_edit_event_def admin_delete_event_def)

theorem admin_unauthorized_witness:
  "''guess'' \<noteq> ADMIN_TOKEN secret_environ \<and>
   admin_add_event secret_environ example_db fresh_id example_admin_event ''guess'' =
     (Inl (HTTPException 401 ''Unauthorized''), example_db) \<and>
   admin_edit_event secret_environ example_db ''654a1b2c3d4e5f60718293a4'' title_payload
       ''guess'' =
     (Inl (HTTPException 401 ''Unauthorized''), example_db) \<and>
   admin_delete_event secret_environ example_db ''654a1b2c3d4e5f60718293a4'' ''guess'' =
     (Inl (HTTPException 401 ''Unauthorized''), example_db)"
proof -
  have neq: "''guess'' \<noteq> ADMIN_TOKEN secret_environ"
    by (simp add: ADMIN_TOKEN_def secret_environ_def)
  show ?thesis
    using neq
      admin_unauthorized [OF neq, of example_db fresh_id example_admin_event
        "''654a1b2c3d4e5f60718293a4''" title_payload]
    by simp
qed

text \<open>
  C10. When the environment has no \<open>ADMIN_TOKEN\<close>, the secret is the empty string, and
  an admin mutation called with the empty token passes the gate and goes on to its
  operation: \<open>admin_add_event\<close> inserts the Event and returns its identifier,
  \<open>admin_edit_event\<close> does what \<open>update_event\<close> does and \<open>admin_delete_event\<close> what
  \<open>delete_event\<close> does.
\<close>

theorem admin_token_unset:
  "environ ''ADMIN_TOKEN'' = None \<Longrightarrow>
     ADMIN_TOKEN environ = [] \<and>
     admin_add_event environ db new_id event [] =
       (Inr [(''id'', VStr (str_oid new_id))],
        db\<lparr>collections := (collections db)
               (''event'' := collections db ''event'' @ [(new_id, model_dump_Event event)]),
           calls := calls db @ [InsertOne ''event'']\<rparr>) \<and>
     admin_edit_event environ db eid payload [] = update_event db eid payload \<and>
     admin_delete_event environ db eid [] = delete_event db eid"
  by (simp add: ADMIN_TOKEN_def admin_add_event_def admin_edit_event_def
      admin_delete_event_def create_document_def)

theorem admin_token_unset_witness:
  "Map.empty ''ADMIN_TOKEN'' = (None :: string option) \<and>
   ADMIN_TOKEN Map.empty = [] \<and>
   fst (admin_add_event Map.empty example_db fresh_id example_admin_event []) =
     Inr [(''id'', VStr ''654a1b2c3d4e5f60718293a5'')] \<and>
   collections (snd (admin_add_event Map.empty example_db fresh_id example_admin_event []))
       ''event'' =
     [(example_id, example_event), (fresh_id, example_event)] \<and>
   fst (admin_delete_event Map.empty example_db ''654a1b2c3d4e5f60718293a4'' []) =
     Inr [(''deleted'', VBool True)]"
proof -
  have dump: "model_dump_Event example_admin_event = example_event"
    by (simp add: model_dump_Event_def example_admin_event_def example_event_def opt_str_def)
  have del: "fst (delete_event example_db ''654a1b2c3d4e5f60718293a4'') =
      Inr [(''deleted'', VBool True)]"
    by (simp add: delete_event_def to_object_id_def ObjectId_example delete_one_def
        example_db_event has_id_def)
  show ?thesis
    using admin_token_unset [of Map.empty example_db fresh_id example_admin_event
        "''654a1b2c3d4e5f60718293a4''" empty_payload]
    by (simp add: str_oid_fresh dump del example_db_event)
qed

end
